theory Spec2Isabelle
  imports Complex_Main "HOL-Library.Word"
begin

section \<open>Errors\<close>

text \<open>
  The exceptions the sources raise, as values. \<open>ValueError\<close> is the invalid-argument
  condition of the constructors, \<open>AssertionError\<close> the failure of an \<^verbatim>\<open>assert\<close>
  (also of \<^verbatim>\<open>np.testing.assert_array_equal\<close>), \<open>NotImplementedError\<close> the topology
  error of \<^verbatim>\<open>predict\<close>, and \<open>IndexError\<close> what Python raises on a list read out of range.
  \<open>BackendError\<close> stands for whatever an absent collaborator may raise.
\<close>

datatype error = ValueError | AssertionError | NotImplementedError | IndexError | BackendError

section \<open>Index generator (index\_generator/base.py)\<close>

text \<open>
  The fields \<^verbatim>\<open>BaseIndexGenerator.__init__\<close> assigns. The private random source
  \<^verbatim>\<open>np.random.default_rng(seed)\<close> belongs to numpy; it is kept as the seed it was built
  from, and the seed is a natural number, the only kind of integer numpy accepts there.
\<close>

record base_index_generator =
  gen_n_samples :: int
  gen_batch_size :: int
  gen_rng :: nat
  gen_shuffle :: bool
  gen_drop_last :: bool
  gen_num_updates :: int
  gen_counter :: int
  gen_n_epoch_generated :: int

text \<open>
  \<^verbatim>\<open>__init__(self, n_samples, batch_size, num_updates, shuffle, drop_last, seed)\<close>:
  the two validations in the order of the source, then the assignments. The class is
  abstract; the constructor runs as the \<^verbatim>\<open>super().__init__\<close> of its subclasses.
\<close>

definition init ::
  "int \<Rightarrow> int option \<Rightarrow> int \<Rightarrow> bool \<Rightarrow> bool \<Rightarrow> nat \<Rightarrow> error + base_index_generator" where
  "init n_samples batch_size num_updates shuffle drop_last seed =
     (if n_samples < 0 then Inl ValueError
      else
        (case (case batch_size of
                 None \<Rightarrow> Inr n_samples
               | Some b \<Rightarrow>
                   if b < 0 then Inl ValueError
                   else if b > n_samples then Inr n_samples
                   else Inr b) of
           Inl e \<Rightarrow> Inl e
         | Inr bs \<Rightarrow>
             Inr \<lparr>gen_n_samples = n_samples, gen_batch_size = bs, gen_rng = seed,
                  gen_shuffle = shuffle, gen_drop_last = drop_last,
                  gen_num_updates = num_updates, gen_counter = 0,
                  gen_n_epoch_generated = 0\<rparr>))"

section \<open>State references and the participant node (nodes/train\_data\_node.py)\<close>

text \<open>
  An operation id is \<^verbatim>\<open>uuid.uuid4().hex\<close>. The source of fresh ids is an explicit supply:
  a counter, whose value is the next id handed out, so that two draws never coincide.
\<close>

type_synonym op_id = nat

definition uuid4 :: "nat \<Rightarrow> op_id \<times> nat" where
  "uuid4 ids = (ids, Suc ids)"

datatype local_state_ref = LocalStateRef (local_key: op_id)

datatype shared_state_ref = SharedStateRef (shared_key: op_id)

text \<open>
  The dictionary \<^verbatim>\<open>compute\<close> appends to \<^verbatim>\<open>self.tuples\<close>, one field per key.
\<close>

record train_tuple =
  algo_key :: string
  tuple_data_manager_key :: string
  train_data_sample_keys :: "string list"
  in_head_model_id :: "op_id option"
  in_trunk_model_id :: "op_id option"
  tag :: string
  composite_traintuple_id :: op_id

record train_data_node =
  node_id :: string
  data_manager_key :: string
  data_sample_keys :: "string list"
  objective_name :: string
  tuples :: "train_tuple list"

text \<open>
  \<^verbatim>\<open>TrainDataNode.compute(operation, data_sample_keys, local_state, shared_state)\<close>.
  Of the operation only its key is read. The result is the pair of references, the node
  with its log extended, and the id supply after the draw.
\<close>

definition compute ::
  "train_data_node \<Rightarrow> string \<Rightarrow> string list option \<Rightarrow> local_state_ref option \<Rightarrow>
   shared_state_ref option \<Rightarrow> nat \<Rightarrow>
   (local_state_ref \<times> shared_state_ref) \<times> train_data_node \<times> nat" where
  "compute self operation_key sample_keys local_state shared_state ids =
     (let sample_keys' = (case sample_keys of None \<Rightarrow> data_sample_keys self | Some ks \<Rightarrow> ks);
          (op_id, ids') = uuid4 ids;
          train_tuple =
            \<lparr>algo_key = operation_key,
             tuple_data_manager_key = data_manager_key self,
             train_data_sample_keys = sample_keys',
             in_head_model_id = map_option local_key local_state,
             in_trunk_model_id = map_option shared_key shared_state,
             tag = ''train'',
             composite_traintuple_id = op_id\<rparr>
      in ((LocalStateRef op_id, SharedStateRef op_id),
          self\<lparr>tuples := tuples self @ [train_tuple]\<rparr>, ids'))"

section \<open>Scaffold strategy: state and aggregation (strategies/scaffold.py)\<close>

text \<open>
  The fields of a \<^verbatim>\<open>Scaffold\<close> instance. \<^verbatim>\<open>__init__\<close> refuses a negative aggregation
  learning rate and starts with no local states and no shared state.
\<close>

record scaffold =
  aggregation_lr :: real
  local_states :: "local_state_ref list option"
  avg_shared_state :: "shared_state_ref option"

definition scaffold_init :: "real \<Rightarrow> error + scaffold" where
  "scaffold_init lr =
     (if lr < 0 then Inl ValueError
      else Inr \<lparr>aggregation_lr = lr, local_states = None, avg_shared_state = None\<rparr>)"

text \<open>
  \<^verbatim>\<open>ScaffoldSharedState\<close> and \<^verbatim>\<open>ScaffoldAveragedStates\<close> (connectlib.schemas), with the
  fields scaffold.py reads and writes. A layer is a numpy array; the arrays of one shape
  form a real vector space, and \<open>'a\<close> is that space: a scalar times an array is
  \<open>*\<^sub>R\<close>, \<^verbatim>\<open>np.sum(arrays, axis=0)\<close> is the sum of the list, and
  \<^verbatim>\<open>assert_array_equal\<close> is equality. numpy's float64 is read as \<open>real\<close>; where the
  total sample count is zero numpy divides into NaN, which \<open>real\<close> does not have, so the
  results on the averaged values are stated for a non-zero total. A sample count is a
  64-bit signed integer, the element type of the array \<^verbatim>\<open>np.array\<close> builds from the
  counts: its value is \<open>sint\<close> of the word, and sums of counts wrap around as numpy's do.
\<close>

record 'a scaffold_shared_state =
  control_variate_update :: "'a list"
  weight_update :: "'a list"
  server_control_variate :: "'a list"
  n_samples :: "64 word"

record 'a scaffold_averaged_states =
  out_server_control_variate :: "'a list"
  out_avg_weight_update :: "'a list"

text \<open>
  \<^verbatim>\<open>_check_shared_states\<close>. The loop compares every shared state with the first one,
  in the order of the asserts; the assert after the loop compares the three lengths of the
  first. The \<^verbatim>\<open>isinstance\<close> assert is the type of the list.
\<close>

fun check_each ::
  "'a scaffold_shared_state \<Rightarrow> 'a scaffold_shared_state list \<Rightarrow> error + unit" where
  "check_each first [] = Inr ()"
| "check_each first (shared_state # rest) =
     (if length (control_variate_update shared_state) \<noteq> length (control_variate_update first)
      then Inl AssertionError
      else if length (weight_update shared_state) \<noteq> length (weight_update first)
      then Inl AssertionError
      else if length (server_control_variate shared_state)
                \<noteq> length (server_control_variate first)
      then Inl AssertionError
      else if list_ex (\<lambda>(c, ci). c \<noteq> ci)
                (zip (server_control_variate first) (server_control_variate shared_state))
      then Inl AssertionError
      else check_each first rest)"

definition check_shared_states :: "'a scaffold_shared_state list \<Rightarrow> error + unit" where
  "check_shared_states shared_states =
     (case shared_states of
        [] \<Rightarrow> Inl AssertionError
      | first # _ \<Rightarrow>
          (case check_each first shared_states of
             Inl e \<Rightarrow> Inl e
           | Inr _ \<Rightarrow>
               if length (control_variate_update first) = length (server_control_variate first)
                  \<and> length (server_control_variate first) = length (weight_update first)
               then Inr ()
               else Inl AssertionError))"

text \<open>
  \<^verbatim>\<open>_weight_arrays\<close>: the loop over \<^verbatim>\<open>range(len(states_to_aggregate))\<close>; reading layer
  \<open>layer_idx\<close> of a client that has fewer layers raises.
\<close>

fun weight_arrays_loop ::
  "real list \<Rightarrow> ('a::real_vector) list list \<Rightarrow> nat \<Rightarrow> nat list \<Rightarrow> error + 'a list" where
  "weight_arrays_loop client_weight states_to_aggregate layer_idx [] = Inr []"
| "weight_arrays_loop client_weight states_to_aggregate layer_idx (client_idx # rest) =
     (if layer_idx < length (states_to_aggregate ! client_idx) then
        (case weight_arrays_loop client_weight states_to_aggregate layer_idx rest of
           Inl e \<Rightarrow> Inl e
         | Inr weighted_arrays \<Rightarrow>
             Inr ((client_weight ! client_idx)
                    *\<^sub>R (states_to_aggregate ! client_idx ! layer_idx) # weighted_arrays))
      else Inl IndexError)"

definition weight_arrays ::
  "real list \<Rightarrow> ('a::real_vector) list list \<Rightarrow> nat \<Rightarrow> error + 'a list" where
  "weight_arrays client_weight states_to_aggregate layer_idx =
     (if length client_weight = length states_to_aggregate
      then weight_arrays_loop client_weight states_to_aggregate layer_idx
             [0..<length states_to_aggregate]
      else Inl AssertionError)"

text \<open>
  \<^verbatim>\<open>_update_server_control_variate\<close>: per layer, the weighted arrays with the server
  control variate of that layer appended, summed.
\<close>

fun update_server_control_variate_loop ::
  "('a::real_vector) list \<Rightarrow> 'a list list \<Rightarrow> real list \<Rightarrow> nat list \<Rightarrow> error + 'a list" where
  "update_server_control_variate_loop scv control_variate_updates client_weight [] = Inr []"
| "update_server_control_variate_loop scv control_variate_updates client_weight
     (layer_idx # rest) =
     (case weight_arrays client_weight control_variate_updates layer_idx of
        Inl e \<Rightarrow> Inl e
      | Inr weighted_arrays \<Rightarrow>
          if layer_idx < length scv then
            (case update_server_control_variate_loop scv control_variate_updates
                    client_weight rest of
               Inl e \<Rightarrow> Inl e
             | Inr updated \<Rightarrow> Inr (sum_list (weighted_arrays @ [scv ! layer_idx]) # updated))
          else Inl IndexError)"

definition update_server_control_variate ::
  "('a::real_vector) list \<Rightarrow> 'a list list \<Rightarrow> real list \<Rightarrow> error + 'a list" where
  "update_server_control_variate scv control_variate_updates client_weight =
     (case control_variate_updates of
        [] \<Rightarrow> Inl IndexError
      | first # _ \<Rightarrow>
          update_server_control_variate_loop scv control_variate_updates client_weight
            [0..<length first])"

text \<open>
  \<^verbatim>\<open>_avg_weight_update\<close>: per layer, the sum of the weighted arrays times the
  aggregation learning rate of the strategy.
\<close>

fun avg_weight_update_loop ::
  "scaffold \<Rightarrow> ('a::real_vector) list list \<Rightarrow> real list \<Rightarrow> nat list \<Rightarrow> error + 'a list" where
  "avg_weight_update_loop self weight_updates client_weight [] = Inr []"
| "avg_weight_update_loop self weight_updates client_weight (layer_idx # rest) =
     (case weight_arrays client_weight weight_updates layer_idx of
        Inl e \<Rightarrow> Inl e
      | Inr weighted_arrays \<Rightarrow>
          (case avg_weight_update_loop self weight_updates client_weight rest of
             Inl e \<Rightarrow> Inl e
           | Inr averaged \<Rightarrow>
               Inr (aggregation_lr self *\<^sub>R sum_list weighted_arrays # averaged)))"

definition avg_weight_update ::
  "scaffold \<Rightarrow> ('a::real_vector) list list \<Rightarrow> real list \<Rightarrow> error + 'a list" where
  "avg_weight_update self weight_updates client_weight =
     (case weight_updates of
        [] \<Rightarrow> Inl IndexError
      | first # _ \<Rightarrow>
          avg_weight_update_loop self weight_updates client_weight [0..<length first])"

text \<open>
  The local variable \<^verbatim>\<open>client_weight\<close> of \<^verbatim>\<open>avg_shared_states\<close>:
  \<^verbatim>\<open>n_samples_per_client / np.sum(n_samples_per_client)\<close>. The sum is taken in int64
  and wraps around; the quotient of two int64 values is a float.
\<close>

definition client_weight_of :: "64 word list \<Rightarrow> real list" where
  "client_weight_of n_samples_per_client =
     map (\<lambda>n. real_of_int (sint n) / real_of_int (sint (sum_list n_samples_per_client)))
       n_samples_per_client"

text \<open>
  \<^verbatim>\<open>avg_shared_states\<close>, the function the aggregation operation runs: the check, the
  weights, then the two fields of the result in the order the source evaluates them.
\<close>

definition avg_shared_states ::
  "scaffold \<Rightarrow> ('a::real_vector) scaffold_shared_state list \<Rightarrow>
   error + 'a scaffold_averaged_states" where
  "avg_shared_states self shared_states =
     (case check_shared_states shared_states of
        Inl e \<Rightarrow> Inl e
      | Inr _ \<Rightarrow>
          (case shared_states of
             [] \<Rightarrow> Inl IndexError
           | first # _ \<Rightarrow>
               (let client_weight = client_weight_of (map n_samples shared_states) in
                case update_server_control_variate (server_control_variate first)
                       (map control_variate_update shared_states) client_weight of
                  Inl e \<Rightarrow> Inl e
                | Inr scv' \<Rightarrow>
                    (case avg_weight_update self (map weight_update shared_states)
                            client_weight of
                       Inl e \<Rightarrow> Inl e
                     | Inr avg \<Rightarrow>
                         Inr \<lparr>out_server_control_variate = scv',
                              out_avg_weight_update = avg\<rparr>))))"

section \<open>Scaffold strategy: rounds (strategies/scaffold.py)\<close>

text \<open>
  Modelled from the spec: the decorator \<^verbatim>\<open>remote_data\<close> (connectlib.remote) is absent from
  the sources. A call \<^verbatim>\<open>algo.train(keys, shared_state=s)\<close> or
  \<^verbatim>\<open>algo.predict(data_samples=keys, shared_state=s, fake_traintuple=True)\<close> runs nothing:
  it builds the operation descriptor of spec 4.2, which holds the identity of the
  algorithm, the sample keys and the shared-state input. An algorithm is its key.
\<close>

type_synonym algo = string

record data_operation =
  op_algo_key :: string
  op_data_samples :: "string list"
  op_shared_state :: "shared_state_ref option"
  fake_traintuple :: bool

definition algo_train :: "algo \<Rightarrow> string list \<Rightarrow> shared_state_ref option \<Rightarrow> data_operation" where
  "algo_train algo data_samples shared_state =
     \<lparr>op_algo_key = algo, op_data_samples = data_samples,
      op_shared_state = shared_state, fake_traintuple = False\<rparr>"

definition algo_predict ::
  "algo \<Rightarrow> string list \<Rightarrow> shared_state_ref option \<Rightarrow> bool \<Rightarrow> data_operation" where
  "algo_predict algo data_samples shared_state fake =
     \<lparr>op_algo_key = algo, op_data_samples = data_samples,
      op_shared_state = shared_state, fake_traintuple = fake\<rparr>"

text \<open>
  Modelled from the spec: \<^verbatim>\<open>TrainDataNode.update_states(operation, local_state, round_idx)\<close>,
  which scaffold.py calls, is absent from the sources; train\_data\_node.py has the
  participant node's operation under the name \<^verbatim>\<open>compute\<close>, as spec 4.2 does. The call
  hands the descriptor's key, sample keys and shared-state input, and the local state, to
  \<^verbatim>\<open>compute\<close>. The record \<^verbatim>\<open>compute\<close> builds has no key for the round index.
\<close>

definition update_states ::
  "train_data_node \<Rightarrow> data_operation \<Rightarrow> local_state_ref option \<Rightarrow> int \<Rightarrow> nat \<Rightarrow>
   (local_state_ref \<times> shared_state_ref) \<times> train_data_node \<times> nat" where
  "update_states self operation local_state round_idx ids =
     compute self (op_algo_key operation) (Some (op_data_samples operation))
       local_state (op_shared_state operation) ids"

text \<open>
  Modelled from the spec: the aggregator node (connectlib.nodes.aggregation\_node) is absent
  from the sources. Spec 4.3: it mirrors the participant node for the coordinating party;
  one operation takes the sequence of shared-state references, one per participant, appends
  one record to the node's log and returns exactly one new shared-state reference, bound to
  a fresh operation id; the node holds no data-sample identity.
\<close>

record aggregate_tuple =
  in_models_ids :: "op_id list"
  aggregate_tag :: string
  aggregatetuple_id :: op_id

record aggregation_node =
  aggregation_node_id :: string
  aggregate_tuples :: "aggregate_tuple list"

text \<open>
  Step 2 of a round is two absent calls: \<^verbatim>\<open>self.avg_shared_states(shared_states=...)\<close>,
  wrapped by \<^verbatim>\<open>@remote\<close>, and \<^verbatim>\<open>aggregation_node.update_states(..., round_idx)\<close>. Together
  they are a parameter of \<^verbatim>\<open>perform_round\<close>: a function of the aggregator node, the
  participants' shared-state references, the round index and the id supply, which returns
  the new reference or raises, and leaves the aggregator node and the supply as it made
  them.
\<close>

type_synonym aggregate =
  "aggregation_node \<Rightarrow> shared_state_ref list \<Rightarrow> int \<Rightarrow> nat \<Rightarrow>
   (error + shared_state_ref) \<times> aggregation_node \<times> nat"

definition aggregation_update_states :: aggregate where
  "aggregation_update_states self shared_states round_idx ids =
     (let (op_id, ids') = uuid4 ids;
          aggregate_tuple =
            \<lparr>in_models_ids = map shared_key shared_states,
             aggregate_tag = ''aggregate'',
             aggregatetuple_id = op_id\<rparr>
      in (Inr (SharedStateRef op_id),
          self\<lparr>aggregate_tuples := aggregate_tuples self @ [aggregate_tuple]\<rparr>, ids'))"

text \<open>
  Modelled from the spec: the evaluation node (connectlib.nodes.test\_data\_node) is absent
  from the sources. Spec 4.4: \<^verbatim>\<open>test_node.update_states(traintuple_id, round_idx)\<close> issues
  an evaluation operation on the evaluation node that consumes the given operation: one
  record appended to the node's log. The fields of the node are those the end-to-end test
  constructs it with.
\<close>

record test_tuple =
  test_objective_key :: string
  test_traintuple_id :: op_id
  test_tuple_data_manager_key :: string
  test_tuple_data_sample_keys :: "string list"

record test_data_node =
  test_node_id :: string
  test_data_manager_key :: string
  test_data_sample_keys :: "string list"
  objective_key :: string
  test_tuples :: "test_tuple list"

definition test_update_states :: "test_data_node \<Rightarrow> op_id \<Rightarrow> int \<Rightarrow> test_data_node" where
  "test_update_states self traintuple_id round_idx =
     self\<lparr>test_tuples := test_tuples self @
       [\<lparr>test_objective_key = objective_key self,
         test_traintuple_id = traintuple_id,
         test_tuple_data_manager_key = test_data_manager_key self,
         test_tuple_data_sample_keys = test_data_sample_keys self\<rparr>]\<rparr>"

text \<open>
  The objects a round reads and writes: the strategy, the participant nodes, the evaluation
  nodes, the aggregator node and the id supply. The node arguments of \<^verbatim>\<open>perform_round\<close>
  and \<^verbatim>\<open>predict\<close> are the nodes of the world, distinct objects in the order of the
  argument lists. A call returns its outcome and the world as it left it: an exception
  keeps every write made before it.
\<close>

record world =
  strategy :: scaffold
  train_data_nodes :: "train_data_node list"
  test_data_nodes :: "test_data_node list"
  aggregation_node :: aggregation_node
  uuid_state :: nat

text \<open>
  The loop of \<^verbatim>\<open>perform_round\<close> over \<^verbatim>\<open>enumerate(train_data_nodes)\<close>, from index \<open>i\<close>:
  the previous local state of the node (reading the stored list at \<open>i\<close> raises when the
  list is shorter), the call of \<^verbatim>\<open>update_states\<close>, and the two lists the results are
  appended to, in the order of the nodes.
\<close>

fun train_loop ::
  "scaffold \<Rightarrow> algo \<Rightarrow> int \<Rightarrow> nat \<Rightarrow> train_data_node list \<Rightarrow> nat \<Rightarrow>
   (error + local_state_ref list \<times> shared_state_ref list) \<times> train_data_node list \<times> nat" where
  "train_loop self algo round_idx i [] ids = (Inr ([], []), [], ids)"
| "train_loop self algo round_idx i (node # nodes) ids =
     (case (case local_states self of
              None \<Rightarrow> Inr None
            | Some ls \<Rightarrow> if i < length ls then Inr (Some (ls ! i)) else Inl IndexError) of
        Inl e \<Rightarrow> (Inl e, node # nodes, ids)
      | Inr previous_local_state \<Rightarrow>
          (case update_states node
                  (algo_train algo (data_sample_keys node) (avg_shared_state self))
                  previous_local_state round_idx ids of
             ((next_local_state, next_shared_state), node', ids') \<Rightarrow>
               (case train_loop self algo round_idx (Suc i) nodes ids' of
                  (Inl e, nodes', ids'') \<Rightarrow> (Inl e, node' # nodes', ids'')
                | (Inr (next_local_states, states_to_aggregate), nodes', ids'') \<Rightarrow>
                    (Inr (next_local_state # next_local_states,
                          next_shared_state # states_to_aggregate),
                     node' # nodes', ids''))))"

text \<open>Step 1 of \<^verbatim>\<open>perform_round\<close>: the loop over all participant nodes of the world.\<close>

definition train_step ::
  "algo \<Rightarrow> int \<Rightarrow> world \<Rightarrow>
   (error + local_state_ref list \<times> shared_state_ref list) \<times> world" where
  "train_step algo round_idx w =
     (case train_loop (strategy w) algo round_idx 0 (train_data_nodes w) (uuid_state w) of
        (r, nodes', ids') \<Rightarrow> (r, w\<lparr>train_data_nodes := nodes', uuid_state := ids'\<rparr>))"

text \<open>Step 2: the aggregation operation on the aggregator node of the world.\<close>

definition aggregation_step ::
  "aggregate \<Rightarrow> shared_state_ref list \<Rightarrow> int \<Rightarrow> world \<Rightarrow> (error + shared_state_ref) \<times> world" where
  "aggregation_step aggregate states_to_aggregate round_idx w =
     (case aggregate (aggregation_node w) states_to_aggregate round_idx (uuid_state w) of
        (r, aggregation_node', ids') \<Rightarrow>
          (r, w\<lparr>aggregation_node := aggregation_node', uuid_state := ids'\<rparr>))"

text \<open>
  \<^verbatim>\<open>Scaffold.perform_round\<close>: step 1, step 2, and the two assignments to the strategy,
  which are reached only when neither step has raised.
\<close>

definition perform_round :: "aggregate \<Rightarrow> algo \<Rightarrow> int \<Rightarrow> world \<Rightarrow> (error + unit) \<times> world" where
  "perform_round aggregate algo round_idx w =
     (case train_step algo round_idx w of
        (Inl e, w1) \<Rightarrow> (Inl e, w1)
      | (Inr (next_local_states, states_to_aggregate), w1) \<Rightarrow>
          (case aggregation_step aggregate states_to_aggregate round_idx w1 of
             (Inl e, w2) \<Rightarrow> (Inl e, w2)
           | (Inr avg_shared_state', w2) \<Rightarrow>
               (Inr (), w2\<lparr>strategy := (strategy w2)
                  \<lparr>local_states := Some next_local_states,
                   avg_shared_state := Some avg_shared_state'\<rparr>\<rparr>)))"

text \<open>
  The calls \<^verbatim>\<open>perform_round(0)\<close>, ..., \<^verbatim>\<open>perform_round(r - 1)\<close> in sequence on one
  strategy and one set of nodes, as the experiment driver issues them; the sequence stops
  at the first call that raises.
\<close>

fun perform_rounds :: "aggregate \<Rightarrow> algo \<Rightarrow> nat \<Rightarrow> world \<Rightarrow> (error + unit) \<times> world" where
  "perform_rounds aggregate algo 0 w = (Inr (), w)"
| "perform_rounds aggregate algo (Suc r) w =
     (case perform_rounds aggregate algo r w of
        (Inl e, w') \<Rightarrow> (Inl e, w')
      | (Inr _, w') \<Rightarrow> perform_round aggregate algo (int r) w')"

text \<open>
  \<^verbatim>\<open>TrainDataNode\<close> is a \<^verbatim>\<open>@dataclass\<close>: its \<^verbatim>\<open>__eq__\<close> is generated, and
  compares the fields that the class and its base \<^verbatim>\<open>Node\<close> declare.
  train\_data\_node.py declares none, and \<^verbatim>\<open>Node\<close> (connectlib.nodes) is absent from the
  sources, so the comparison of two participant nodes is a parameter \<open>node_eq\<close> of
  \<^verbatim>\<open>predict\<close>. When \<^verbatim>\<open>Node\<close> declares no field either, it holds of every two nodes.

  \<^verbatim>\<open>list.index(x)\<close> for the object \<open>x\<close> that stands at position \<open>p\<close> of the list: the
  first position whose element is the object itself or compares equal to it;
  \<open>ValueError\<close> when there is none.
\<close>

fun index :: "('a \<Rightarrow> 'a \<Rightarrow> bool) \<Rightarrow> 'a list \<Rightarrow> nat \<Rightarrow> 'a \<Rightarrow> error + nat" where
  "index eq [] p x = Inl ValueError"
| "index eq (y # ys) p x =
     (if p = 0 \<or> eq y x then Inr 0
      else (case index eq ys (p - 1) x of Inl e \<Rightarrow> Inl e | Inr i \<Rightarrow> Inr (Suc i)))"

text \<open>
  The loop of \<^verbatim>\<open>Scaffold.predict\<close> over the evaluation nodes. For one node, in the order
  of the source: the participant nodes of the same identity, each with its position in
  \<^verbatim>\<open>train_data_nodes\<close> (none: \<open>NotImplementedError\<close>); the first of them,
  \<^verbatim>\<open>train_node\<close>, which stands at position \<open>p\<close>; \<^verbatim>\<open>node_index\<close>, what
  \<^verbatim>\<open>train_data_nodes.index(train_node)\<close> returns; the local state stored at
  \<^verbatim>\<open>node_index\<close> (no stored list: the assert fails; a shorter list: reading it raises);
  the first sample key of \<^verbatim>\<open>train_node\<close>; the forward operation, which writes to
  \<^verbatim>\<open>train_node\<close> itself, the node at position \<open>p\<close>; and the evaluation operation on the
  evaluation node.
\<close>

fun predict_loop ::
  "(train_data_node \<Rightarrow> train_data_node \<Rightarrow> bool) \<Rightarrow> scaffold \<Rightarrow> algo \<Rightarrow> int \<Rightarrow>
   test_data_node list \<Rightarrow> train_data_node list \<Rightarrow> nat \<Rightarrow>
   (error + unit) \<times> test_data_node list \<times> train_data_node list \<times> nat" where
  "predict_loop node_eq self algo round_idx [] train_nodes ids = (Inr (), [], train_nodes, ids)"
| "predict_loop node_eq self algo round_idx (test_node # rest) train_nodes ids =
     (case filter (\<lambda>(p, train_node). node_id train_node = test_node_id test_node)
             (zip [0..<length train_nodes] train_nodes) of
        [] \<Rightarrow> (Inl NotImplementedError, test_node # rest, train_nodes, ids)
      | (p, train_node) # _ \<Rightarrow>
          (case index node_eq train_nodes p train_node of
             Inl e \<Rightarrow> (Inl e, test_node # rest, train_nodes, ids)
           | Inr node_index \<Rightarrow>
               (case local_states self of
                  None \<Rightarrow> (Inl AssertionError, test_node # rest, train_nodes, ids)
                | Some ls \<Rightarrow>
                    if \<not> node_index < length ls
                    then (Inl IndexError, test_node # rest, train_nodes, ids)
                    else
                      (case data_sample_keys train_node of
                         [] \<Rightarrow> (Inl IndexError, test_node # rest, train_nodes, ids)
                       | key # _ \<Rightarrow>
                           (case update_states train_node
                                   (algo_predict algo [key] (avg_shared_state self) True)
                                   (Some (ls ! node_index)) round_idx ids of
                              ((traintuple_id_ref, _), train_node', ids') \<Rightarrow>
                                (case predict_loop node_eq self algo round_idx rest
                                        (train_nodes[p := train_node']) ids' of
                                   (r, rest', train_nodes', ids'') \<Rightarrow>
                                     (r, test_update_states test_node
                                           (local_key traintuple_id_ref) round_idx # rest',
                                      train_nodes', ids'')))))))"

definition predict ::
  "(train_data_node \<Rightarrow> train_data_node \<Rightarrow> bool) \<Rightarrow> algo \<Rightarrow> int \<Rightarrow> world \<Rightarrow>
   (error + unit) \<times> world" where
  "predict node_eq algo round_idx w =
     (case predict_loop node_eq (strategy w) algo round_idx (test_data_nodes w)
             (train_data_nodes w) (uuid_state w) of
        (r, test_nodes', train_nodes', ids') \<Rightarrow>
          (r, w\<lparr>train_data_nodes := train_nodes', test_data_nodes := test_nodes',
                uuid_state := ids'\<rparr>))"

section \<open>A concrete experiment\<close>

text \<open>
  Two participant nodes, one evaluation node on the first participant's identity, an
  aggregator node, a strategy that has performed no round, and an id supply at 0: the
  input the concrete evaluations below start from.
\<close>

definition example_world :: world where
  "example_world =
     \<lparr>strategy = \<lparr>aggregation_lr = 1, local_states = None, avg_shared_state = None\<rparr>,
      train_data_nodes =
        [\<lparr>node_id = ''0'', data_manager_key = ''dm0'', data_sample_keys = [''s0''],
          objective_name = ''obj'', tuples = []\<rparr>,
         \<lparr>node_id = ''1'', data_manager_key = ''dm1'', data_sample_keys = [''s1''],
          objective_name = ''obj'', tuples = []\<rparr>],
      test_data_nodes =
        [\<lparr>test_node_id = ''0'', test_data_manager_key = ''dm0'',
          test_data_sample_keys = [''t0''], objective_key = ''acc'', test_tuples = []\<rparr>],
      aggregation_node = \<lparr>aggregation_node_id = ''agg'', aggregate_tuples = []\<rparr>,
      uuid_state = 0\<rparr>"

section \<open>Results on the index generator\<close>

text \<open>
  C9. Construction raises the invalid-argument error when \<open>n_samples < 0\<close> or a given
  \<open>batch_size\<close> is negative; in every other case it succeeds, and the batch size it stores
  is \<open>n_samples\<close> when \<open>batch_size\<close> is unset or exceeds \<open>n_samples\<close>, and \<open>batch_size\<close>
  otherwise.
\<close>

theorem init_batch_size:
  "init n batch_size num_updates shuffle drop_last seed =
     (if n < 0 \<or> (case batch_size of None \<Rightarrow> False | Some b \<Rightarrow> b < 0)
      then Inl ValueError
      else Inr \<lparr>gen_n_samples = n,
                gen_batch_size =
                  (case batch_size of
                     None \<Rightarrow> n
                   | Some b \<Rightarrow> if b > n then n else b),
                gen_rng = seed, gen_shuffle = shuffle, gen_drop_last = drop_last,
                gen_num_updates = num_updates, gen_counter = 0,
                gen_n_epoch_generated = 0\<rparr>)"
  by (simp add: init_def split: option.split)

text \<open>
  C8 (as the code has it). The constructor never looks at \<open>num_updates\<close>: whenever
  \<open>n_samples\<close> and \<open>batch_size\<close> pass their validations, construction succeeds for every
  \<open>num_updates\<close>, zero and negative ones included, and stores the value as given.
\<close>

theorem init_num_updates_unchecked:
  assumes "0 \<le> n"
    and "case batch_size of None \<Rightarrow> True | Some b \<Rightarrow> 0 \<le> b"
  shows "\<exists>g. init n batch_size num_updates shuffle drop_last seed = Inr g
           \<and> gen_num_updates g = num_updates"
  using assms by (auto simp: init_def split: option.splits)

theorem init_num_updates_unchecked_witness:
  "\<exists>g. init 10 (Some 32) (- 10) True True 42 = Inr g \<and> gen_num_updates g = - 10"
  using init_num_updates_unchecked [of 10 "Some 32" "- 10" True True 42] by simp

text \<open>
  The claim that a non-positive \<open>num_updates\<close> makes construction fail is false on the
  code: with \<open>num_updates = 0\<close> the generator is built.
\<close>

theorem init_num_updates_zero_counterexample:
  "init 10 (Some 32) 0 True True 42 =
     Inr \<lparr>gen_n_samples = 10, gen_batch_size = 10, gen_rng = 42, gen_shuffle = True,
          gen_drop_last = True, gen_num_updates = 0, gen_counter = 0,
          gen_n_epoch_generated = 0\<rparr>"
  by (simp add: init_def)

section \<open>Results on the participant node\<close>

text \<open>
  C10. One call of \<^verbatim>\<open>compute\<close> draws one id from the supply; the two references it
  returns both carry that id; the node it returns is the node it was given with exactly one
  record appended to its log, and that record's \<open>composite_traintuple_id\<close> is the same id.
  The id is new: it differs from the id of every record of the log that was drawn from the
  supply before.
\<close>

theorem compute_refs_and_log:
  "case compute self operation_key sample_keys local_state shared_state ids of
     ((l, s), self', ids') \<Rightarrow>
       (local_key l, ids') = uuid4 ids
       \<and> shared_key s = local_key l
       \<and> (\<exists>t. self' = self\<lparr>tuples := tuples self @ [t]\<rparr>
              \<and> composite_traintuple_id t = local_key l)
       \<and> length (tuples self') = Suc (length (tuples self))
       \<and> ((\<forall>t' \<in> set (tuples self). composite_traintuple_id t' < ids)
            \<longrightarrow> local_key l \<notin> composite_traintuple_id ` set (tuples self))"
  by (auto simp: compute_def uuid4_def Let_def)

theorem compute_refs_and_log_witness:
  "case compute
      \<lparr>node_id = ''0'', data_manager_key = ''dm'', data_sample_keys = [''s0''],
       objective_name = ''obj'', tuples = []\<rparr> ''algo'' None None None 7 of
     ((l, s), self', ids') \<Rightarrow>
       local_key l = 7 \<and> shared_key s = 7 \<and> ids' = 8
       \<and> map composite_traintuple_id (tuples self') = [7]"
  using compute_refs_and_log
    [where self = "\<lparr>node_id = ''0'', data_manager_key = ''dm'', data_sample_keys = [''s0''],
          objective_name = ''obj'', tuples = []\<rparr>" and operation_key = "''algo''"
       and sample_keys = None and local_state = None and shared_state = None and ids = 7]
  by (simp add: compute_def uuid4_def Let_def)

section \<open>Results on the Scaffold aggregation\<close>

lemma zip_mismatch_iff:
  "length xs = length ys \<Longrightarrow> list_ex (\<lambda>(c, ci). c \<noteq> ci) (zip xs ys) \<longleftrightarrow> xs \<noteq> ys"
  by (induction xs ys rule: list_induct2) auto

lemma check_each_ok:
  "check_each first ss = Inr () \<longleftrightarrow>
     (\<forall>s \<in> set ss. length (control_variate_update s) = length (control_variate_update first)
        \<and> length (weight_update s) = length (weight_update first)
        \<and> server_control_variate s = server_control_variate first)"
proof (induction ss)
  case Nil
  show ?case by simp
next
  case (Cons s ss)
  show ?case
  proof (cases "length (server_control_variate s) = length (server_control_variate first)")
    case True
    then show ?thesis
      using Cons.IH zip_mismatch_iff [of "server_control_variate first" "server_control_variate s"]
      by auto
  next
    case False
    then show ?thesis by auto
  qed
qed

lemma check_each_err: "check_each first ss = Inl e \<Longrightarrow> e = AssertionError"
  by (induction ss) (auto split: if_splits)

lemma check_shared_states_each:
  "check_shared_states ss = Inr () \<longleftrightarrow>
     ss \<noteq> [] \<and> check_each (hd ss) ss = Inr ()
     \<and> length (control_variate_update (hd ss)) = length (server_control_variate (hd ss))
     \<and> length (server_control_variate (hd ss)) = length (weight_update (hd ss))"
proof (cases ss)
  case Nil
  then show ?thesis by (simp add: check_shared_states_def)
next
  case (Cons first rest)
  show ?thesis
  proof (cases "check_each first ss")
    case (Inl e)
    with Cons show ?thesis
      by (simp add: check_shared_states_def del: check_each.simps)
  next
    case (Inr u)
    with Cons show ?thesis
      by (simp add: check_shared_states_def del: check_each.simps)
  qed
qed

lemma check_shared_states_ok:
  "check_shared_states ss = Inr () \<longleftrightarrow>
     ss \<noteq> []
     \<and> (\<forall>s \<in> set ss.
           length (control_variate_update s) = length (control_variate_update (hd ss))
         \<and> length (weight_update s) = length (weight_update (hd ss))
         \<and> server_control_variate s = server_control_variate (hd ss))
     \<and> length (control_variate_update (hd ss)) = length (server_control_variate (hd ss))
     \<and> length (server_control_variate (hd ss)) = length (weight_update (hd ss))"
  unfolding check_shared_states_each check_each_ok by blast

lemma check_shared_states_err: "check_shared_states ss = Inl e \<Longrightarrow> e = AssertionError"
  by (auto simp: check_shared_states_def split: list.splits sum.splits if_splits
      dest: check_each_err)

lemma check_shared_states_cases:
  "check_shared_states ss = Inr () \<or> check_shared_states ss = Inl AssertionError"
  by (cases "check_shared_states ss") (auto dest: check_shared_states_err)










lemma client_weight_of_wraps: "client_weight_of [2 ^ 62, 2 ^ 62] = [- 1 / 2, - 1 / 2]"
  by (simp add: client_weight_of_def)








lemma avg_shared_states_Inl_check:
  "check_shared_states ss = Inl e \<Longrightarrow> avg_shared_states self ss = Inl e"
  by (simp add: avg_shared_states_def)







text \<open>
  C6. The check, and with it the aggregation, fails with \<open>AssertionError\<close> and returns
  nothing whenever the list is empty, or two participants differ in the length of their
  control variate updates, of their weight updates or of their server control variates, or
  their server control variates differ at some layer, or some participant's three sequences
  do not have one length.
\<close>

theorem check_shared_states_rejects:
  fixes ss :: "('a::real_vector) scaffold_shared_state list"
  assumes "ss = []
     \<or> (\<exists>i<length ss. \<exists>j<length ss.
           length (control_variate_update (ss ! i)) \<noteq> length (control_variate_update (ss ! j))
         \<or> length (weight_update (ss ! i)) \<noteq> length (weight_update (ss ! j))
         \<or> length (server_control_variate (ss ! i)) \<noteq> length (server_control_variate (ss ! j))
         \<or> (\<exists>k. k < length (server_control_variate (ss ! i))
                \<and> k < length (server_control_variate (ss ! j))
                \<and> server_control_variate (ss ! i) ! k \<noteq> server_control_variate (ss ! j) ! k))
     \<or> (\<exists>i<length ss.
           length (control_variate_update (ss ! i)) \<noteq> length (server_control_variate (ss ! i))
         \<or> length (server_control_variate (ss ! i)) \<noteq> length (weight_update (ss ! i)))"
  shows "check_shared_states ss = Inl AssertionError
     \<and> avg_shared_states self ss = Inl AssertionError"
proof -
  have "check_shared_states ss \<noteq> Inr ()"
  proof
    assume "check_shared_states ss = Inr ()"
    then have ok: "ss \<noteq> []"
      "\<And>s. s \<in> set ss \<Longrightarrow>
         length (control_variate_update s) = length (control_variate_update (hd ss))"
      "\<And>s. s \<in> set ss \<Longrightarrow> length (weight_update s) = length (weight_update (hd ss))"
      "\<And>s. s \<in> set ss \<Longrightarrow> server_control_variate s = server_control_variate (hd ss)"
      "length (control_variate_update (hd ss)) = length (server_control_variate (hd ss))"
      "length (server_control_variate (hd ss)) = length (weight_update (hd ss))"
      using check_shared_states_ok [of ss] by blast+
    have eq: "length (control_variate_update (ss ! i)) = length (control_variate_update (hd ss))
        \<and> length (weight_update (ss ! i)) = length (weight_update (hd ss))
        \<and> server_control_variate (ss ! i) = server_control_variate (hd ss)"
      if "i < length ss" for i
      using ok(2,3,4) [OF nth_mem [OF that]] by blast
    from assms ok(1,5,6) eq show False by metis
  qed
  then have "check_shared_states ss = Inl AssertionError"
    using check_shared_states_cases [of ss] by blast
  then show ?thesis by (simp add: avg_shared_states_Inl_check)
qed

theorem check_shared_states_rejects_witness:
  "check_shared_states
     [\<lparr>control_variate_update = [0 :: real], weight_update = [1],
        server_control_variate = [0], n_samples = 10\<rparr>,
      \<lparr>control_variate_update = [0], weight_update = [2],
        server_control_variate = [1], n_samples = 30\<rparr>] = Inl AssertionError
   \<and> avg_shared_states \<lparr>aggregation_lr = 1, local_states = None, avg_shared_state = None\<rparr>
     [\<lparr>control_variate_update = [0 :: real], weight_update = [1],
        server_control_variate = [0], n_samples = 10\<rparr>,
      \<lparr>control_variate_update = [0], weight_update = [2],
        server_control_variate = [1], n_samples = 30\<rparr>] = Inl AssertionError"
proof -
  let ?ss = "[\<lparr>control_variate_update = [0 :: real], weight_update = [1],
        server_control_variate = [0], n_samples = 10\<rparr>,
      \<lparr>control_variate_update = [0], weight_update = [2],
        server_control_variate = [1], n_samples = 30\<rparr>]"
  have "\<exists>i<length ?ss. \<exists>j<length ?ss.
           length (control_variate_update (?ss ! i)) \<noteq> length (control_variate_update (?ss ! j))
         \<or> length (weight_update (?ss ! i)) \<noteq> length (weight_update (?ss ! j))
         \<or> length (server_control_variate (?ss ! i)) \<noteq> length (server_control_variate (?ss ! j))
         \<or> (\<exists>k. k < length (server_control_variate (?ss ! i))
                \<and> k < length (server_control_variate (?ss ! j))
                \<and> server_control_variate (?ss ! i) ! k \<noteq> server_control_variate (?ss ! j) ! k)"
    by (intro exI [of _ 0] exI [of _ 1] conjI disjI2) simp_all
  then show ?thesis
    using check_shared_states_rejects [of ?ss] by blast
qed

section \<open>Results on the rounds of the strategy\<close>

lemma update_states_eq:
  "update_states node (algo_train algo keys shared) prev round_idx ids =
     ((LocalStateRef ids, SharedStateRef ids),
      node\<lparr>tuples := tuples node @
        [\<lparr>algo_key = algo, tuple_data_manager_key = data_manager_key node,
          train_data_sample_keys = keys,
          in_head_model_id = map_option local_key prev,
          in_trunk_model_id = map_option shared_key shared,
          tag = ''train'', composite_traintuple_id = ids\<rparr>]\<rparr>,
      Suc ids)"
  by (simp add: update_states_def compute_def algo_train_def uuid4_def)

lemma train_loop_Inr:
  "train_loop self algo round_idx i nodes ids = (Inr (nls, sta), nodes', ids') \<Longrightarrow>
   length nls = length nodes \<and> length sta = length nodes \<and> length nodes' = length nodes
   \<and> ids' = ids + length nodes
   \<and> (\<forall>k < length nodes.
         nls ! k = LocalStateRef (ids + k) \<and> sta ! k = SharedStateRef (ids + k)
         \<and> nodes' ! k = (nodes ! k)\<lparr>tuples := tuples (nodes ! k) @
             [\<lparr>algo_key = algo, tuple_data_manager_key = data_manager_key (nodes ! k),
               train_data_sample_keys = data_sample_keys (nodes ! k),
               in_head_model_id =
                 map_option (\<lambda>ls. local_key (ls ! (i + k))) (local_states self),
               in_trunk_model_id = map_option shared_key (avg_shared_state self),
               tag = ''train'', composite_traintuple_id = ids + k\<rparr>]\<rparr>)"
proof (induction nodes arbitrary: i ids nls sta nodes' ids')
  case Nil
  then show ?case by simp
next
  case (Cons node nodes)
  from Cons.prems obtain prev where
    prev: "(case local_states self of None \<Rightarrow> Inr None
            | Some ls \<Rightarrow> if i < length ls then Inr (Some (ls ! i)) else Inl IndexError)
           = Inr prev"
    by (auto split: sum.splits)
  then have prev_key: "map_option local_key prev
      = map_option (\<lambda>ls. local_key (ls ! i)) (local_states self)"
    by (auto split: option.splits if_splits)
  from Cons.prems prev obtain nls0 sta0 nodes0 where
    rec: "train_loop self algo round_idx (Suc i) nodes (Suc ids) = (Inr (nls0, sta0), nodes0, ids')"
    and res: "nls = LocalStateRef ids # nls0" "sta = SharedStateRef ids # sta0"
      "nodes' = node\<lparr>tuples := tuples node @
        [\<lparr>algo_key = algo, tuple_data_manager_key = data_manager_key node,
          train_data_sample_keys = data_sample_keys node,
          in_head_model_id = map_option local_key prev,
          in_trunk_model_id = map_option shared_key (avg_shared_state self),
          tag = ''train'', composite_traintuple_id = ids\<rparr>]\<rparr> # nodes0"
    by (auto simp: update_states_eq split: sum.splits prod.splits)
  note IH = Cons.IH [OF rec]
  show ?case
  proof (intro conjI allI impI)
    fix k assume k: "k < length (node # nodes)"
    show "nls ! k = LocalStateRef (ids + k)"
      using IH k res by (cases k) auto
    show "sta ! k = SharedStateRef (ids + k)"
      using IH k res by (cases k) auto
    show "nodes' ! k = ((node # nodes) ! k)\<lparr>tuples := tuples ((node # nodes) ! k) @
             [\<lparr>algo_key = algo, tuple_data_manager_key = data_manager_key ((node # nodes) ! k),
               train_data_sample_keys = data_sample_keys ((node # nodes) ! k),
               in_head_model_id =
                 map_option (\<lambda>ls. local_key (ls ! (i + k))) (local_states self),
               in_trunk_model_id = map_option shared_key (avg_shared_state self),
               tag = ''train'', composite_traintuple_id = ids + k\<rparr>]\<rparr>"
      using IH k res prev_key by (cases k) auto
  qed (use IH res in auto)
qed

lemma train_loop_total:
  "(case local_states self of None \<Rightarrow> True | Some ls \<Rightarrow> i + length nodes \<le> length ls) \<Longrightarrow>
   \<exists>nls sta nodes' ids'. train_loop self algo round_idx i nodes ids = (Inr (nls, sta), nodes', ids')"
proof (induction nodes arbitrary: i ids)
  case Nil
  then show ?case by simp
next
  case (Cons node nodes)
  have "case local_states self of None \<Rightarrow> True | Some ls \<Rightarrow> Suc i + length nodes \<le> length ls"
    using Cons.prems by (auto split: option.splits)
  from Cons.IH [OF this, of "Suc ids"] obtain nls sta nodes' ids' where
    "train_loop self algo round_idx (Suc i) nodes (Suc ids) = (Inr (nls, sta), nodes', ids')"
    by blast
  then show ?case
    using Cons.prems by (auto simp: update_states_eq split: option.splits)
qed

lemma train_step_Inr:
  assumes "train_step algo round_idx w = (Inr (nls, sta), w1)"
  shows "w1 = w\<lparr>train_data_nodes := train_data_nodes w1,
                 uuid_state := uuid_state w + length (train_data_nodes w)\<rparr>"
    and "length nls = length (train_data_nodes w)"
    and "length sta = length (train_data_nodes w)"
    and "length (train_data_nodes w1) = length (train_data_nodes w)"
    and "\<And>k. k < length (train_data_nodes w) \<Longrightarrow>
           nls ! k = LocalStateRef (uuid_state w + k) \<and> sta ! k = SharedStateRef (uuid_state w + k)
           \<and> train_data_nodes w1 ! k = (train_data_nodes w ! k)
               \<lparr>tuples := tuples (train_data_nodes w ! k) @
                 [\<lparr>algo_key = algo,
                   tuple_data_manager_key = data_manager_key (train_data_nodes w ! k),
                   train_data_sample_keys = data_sample_keys (train_data_nodes w ! k),
                   in_head_model_id =
                     map_option (\<lambda>ls. local_key (ls ! k)) (local_states (strategy w)),
                   in_trunk_model_id = map_option shared_key (avg_shared_state (strategy w)),
                   tag = ''train'', composite_traintuple_id = uuid_state w + k\<rparr>]\<rparr>"
proof -
  from assms obtain nodes' ids' where
    loop: "train_loop (strategy w) algo round_idx 0 (train_data_nodes w) (uuid_state w)
             = (Inr (nls, sta), nodes', ids')"
    and w1: "w1 = w\<lparr>train_data_nodes := nodes', uuid_state := ids'\<rparr>"
    by (auto simp: train_step_def split: prod.splits)
  note facts = train_loop_Inr [OF loop]
  show "w1 = w\<lparr>train_data_nodes := train_data_nodes w1,
                 uuid_state := uuid_state w + length (train_data_nodes w)\<rparr>"
    using facts w1 by simp
  show "length nls = length (train_data_nodes w)" using facts by simp
  show "length sta = length (train_data_nodes w)" using facts by simp
  show "length (train_data_nodes w1) = length (train_data_nodes w)" using facts w1 by simp
  show "nls ! k = LocalStateRef (uuid_state w + k) \<and> sta ! k = SharedStateRef (uuid_state w + k)
           \<and> train_data_nodes w1 ! k = (train_data_nodes w ! k)
               \<lparr>tuples := tuples (train_data_nodes w ! k) @
                 [\<lparr>algo_key = algo,
                   tuple_data_manager_key = data_manager_key (train_data_nodes w ! k),
                   train_data_sample_keys = data_sample_keys (train_data_nodes w ! k),
                   in_head_model_id =
                     map_option (\<lambda>ls. local_key (ls ! k)) (local_states (strategy w)),
                   in_trunk_model_id = map_option shared_key (avg_shared_state (strategy w)),
                   tag = ''train'', composite_traintuple_id = uuid_state w + k\<rparr>]\<rparr>"
    if "k < length (train_data_nodes w)" for k
    using facts w1 that by simp
qed

lemma aggregation_step_frame:
  "aggregation_step aggregate sta round_idx w1 = (r, w2) \<Longrightarrow>
   strategy w2 = strategy w1 \<and> train_data_nodes w2 = train_data_nodes w1
   \<and> test_data_nodes w2 = test_data_nodes w1"
  by (auto simp: aggregation_step_def split: prod.splits)

lemma perform_round_Inr:
  "perform_round aggregate algo round_idx w = (Inr (), w') \<Longrightarrow>
   \<exists>nls sta w1 s w2.
     train_step algo round_idx w = (Inr (nls, sta), w1)
     \<and> aggregation_step aggregate sta round_idx w1 = (Inr s, w2)
     \<and> w' = w2\<lparr>strategy := (strategy w2)\<lparr>local_states := Some nls, avg_shared_state := Some s\<rparr>\<rparr>"
  by (auto simp: perform_round_def split: prod.splits sum.splits)

lemma perform_round_step:
  assumes "perform_round aggregate algo round_idx w = (Inr (), w')"
    and "i < length (train_data_nodes w)"
  shows "\<exists>nls sta w1 s w2 t.
     train_step algo round_idx w = (Inr (nls, sta), w1)
     \<and> aggregation_step aggregate sta round_idx w1 = (Inr s, w2)
     \<and> local_states (strategy w') = Some nls \<and> avg_shared_state (strategy w') = Some s
     \<and> length nls = length (train_data_nodes w)
     \<and> length (train_data_nodes w') = length (train_data_nodes w)
     \<and> tuples (train_data_nodes w' ! i) = tuples (train_data_nodes w ! i) @ [t]
     \<and> nls ! i = LocalStateRef (composite_traintuple_id t)
     \<and> sta ! i = SharedStateRef (composite_traintuple_id t)
     \<and> in_head_model_id t = map_option (\<lambda>ls. local_key (ls ! i)) (local_states (strategy w))
     \<and> in_trunk_model_id t = map_option shared_key (avg_shared_state (strategy w))
     \<and> (\<forall>j < length (train_data_nodes w). nls ! j = LocalStateRef (uuid_state w + j))"
proof -
  from perform_round_Inr [OF assms(1)] obtain nls sta w1 s w2 where
    ts: "train_step algo round_idx w = (Inr (nls, sta), w1)"
    and ag: "aggregation_step aggregate sta round_idx w1 = (Inr s, w2)"
    and w': "w' = w2\<lparr>strategy := (strategy w2)\<lparr>local_states := Some nls, avg_shared_state := Some s\<rparr>\<rparr>"
    by blast
  note f = train_step_Inr [OF ts]
  note g = aggregation_step_frame [OF ag]
  let ?t = "\<lparr>algo_key = algo,
             tuple_data_manager_key = data_manager_key (train_data_nodes w ! i),
             train_data_sample_keys = data_sample_keys (train_data_nodes w ! i),
             in_head_model_id =
               map_option (\<lambda>ls. local_key (ls ! i)) (local_states (strategy w)),
             in_trunk_model_id = map_option shared_key (avg_shared_state (strategy w)),
             tag = ''train'', composite_traintuple_id = uuid_state w + i\<rparr>"
  have nodes: "train_data_nodes w' = train_data_nodes w1" using w' g by simp
  have 1: "tuples (train_data_nodes w' ! i) = tuples (train_data_nodes w ! i) @ [?t]"
    using f(5) [OF assms(2)] nodes by simp
  have 2: "nls ! i = LocalStateRef (composite_traintuple_id ?t)"
    "sta ! i = SharedStateRef (composite_traintuple_id ?t)"
    using f(5) [OF assms(2)] by simp_all
  have 3: "\<forall>j < length (train_data_nodes w). nls ! j = LocalStateRef (uuid_state w + j)"
    using f(5) by blast
  have 4: "local_states (strategy w') = Some nls" "avg_shared_state (strategy w') = Some s"
    using w' by simp_all
  have 5: "length (train_data_nodes w') = length (train_data_nodes w)"
    using nodes f(4) by simp
  have 6: "in_head_model_id ?t = map_option (\<lambda>ls. local_key (ls ! i)) (local_states (strategy w))"
    "in_trunk_model_id ?t = map_option shared_key (avg_shared_state (strategy w))"
    by simp_all
  from ts ag 4 f(2) 5 1 2 6 3 show ?thesis by blast
qed

lemma perform_rounds_Suc_Inr:
  "perform_rounds aggregate algo (Suc r) w0 = (Inr (), w) \<Longrightarrow>
   \<exists>w_prev. perform_rounds aggregate algo r w0 = (Inr (), w_prev)
     \<and> perform_round aggregate algo (int r) w_prev = (Inr (), w)"
  by (auto split: prod.splits sum.splits)

lemma perform_rounds_length:
  "perform_rounds aggregate algo r w0 = (Inr (), w) \<Longrightarrow>
   length (train_data_nodes w) = length (train_data_nodes w0)"
proof (induction r arbitrary: w)
  case 0
  then show ?case by simp
next
  case (Suc r)
  from perform_rounds_Suc_Inr [OF Suc.prems] obtain w_prev where
    p: "perform_rounds aggregate algo r w0 = (Inr (), w_prev)"
    and q: "perform_round aggregate algo (int r) w_prev = (Inr (), w)"
    by blast
  from perform_round_Inr [OF q] obtain nls sta w1 s w2 where
    ts: "train_step algo (int r) w_prev = (Inr (nls, sta), w1)"
    and ag: "aggregation_step aggregate sta (int r) w1 = (Inr s, w2)"
    and w: "w = w2\<lparr>strategy := (strategy w2)\<lparr>local_states := Some nls, avg_shared_state := Some s\<rparr>\<rparr>"
    by blast
  have "length (train_data_nodes w) = length (train_data_nodes w_prev)"
    using train_step_Inr(4) [OF ts] aggregation_step_frame [OF ag] w by simp
  with Suc.IH [OF p] show ?case by simp
qed

lemma train_step_total:
  assumes "case local_states (strategy w) of None \<Rightarrow> True
           | Some ls \<Rightarrow> length (train_data_nodes w) \<le> length ls"
  shows "\<exists>nls sta w1. train_step algo round_idx w = (Inr (nls, sta), w1)"
proof -
  have "case local_states (strategy w) of None \<Rightarrow> True
        | Some ls \<Rightarrow> 0 + length (train_data_nodes w) \<le> length ls"
    using assms by (auto split: option.splits)
  from train_loop_total [OF this, of algo round_idx "uuid_state w"]
  show ?thesis by (auto simp: train_step_def)
qed

lemmas eval_defs = example_world_def perform_round_def train_step_def aggregation_step_def
  aggregation_update_states_def update_states_eq uuid4_def

text \<open>
  C1. Take a strategy that has performed no round, and let \<^verbatim>\<open>perform_round\<close> have been
  called, without raising, for the rounds \<open>0, ..., r - 1\<close> and then for round \<open>r\<close>, whatever
  the aggregation operation returns. Round \<open>r\<close> appends exactly one record \<open>t\<close> to the log of
  participant \<open>i\<close>; the references returned for it stand at position \<open>i\<close> of the list of
  local states the strategy stores and of the list handed to the aggregation. When \<open>r = 0\<close>
  the record has no local-state and no shared-state input. When \<open>r > 0\<close> its local-state
  input is the key of the local-state reference round \<open>r - 1\<close> produced at position \<open>i\<close>,
  which is the id of the record round \<open>r - 1\<close> appended to the same participant's log, and it
  is the key of no other participant's reference of that round; its shared-state input is
  the key of the reference the aggregation of round \<open>r - 1\<close> returned.
\<close>

theorem perform_round_threads_references:
  assumes "local_states (strategy w0) = None"
    and "avg_shared_state (strategy w0) = None"
    and "perform_rounds aggregate algo r w0 = (Inr (), w)"
    and "perform_round aggregate algo (int r) w = (Inr (), w')"
    and "i < length (train_data_nodes w0)"
  shows "\<exists>t nls sta w1 s w2.
      train_step algo (int r) w = (Inr (nls, sta), w1)
    \<and> aggregation_step aggregate sta (int r) w1 = (Inr s, w2)
    \<and> tuples (train_data_nodes w' ! i) = tuples (train_data_nodes w ! i) @ [t]
    \<and> length nls = length (train_data_nodes w0)
    \<and> nls ! i = LocalStateRef (composite_traintuple_id t)
    \<and> sta ! i = SharedStateRef (composite_traintuple_id t)
    \<and> local_states (strategy w') = Some nls
    \<and> avg_shared_state (strategy w') = Some s
    \<and> (r = 0 \<longrightarrow> in_head_model_id t = None \<and> in_trunk_model_id t = None)
    \<and> (0 < r \<longrightarrow>
         (\<exists>w_prev t_prev nls_prev sta_prev w1_prev s_prev w2_prev.
             perform_rounds aggregate algo (r - 1) w0 = (Inr (), w_prev)
           \<and> train_step algo (int (r - 1)) w_prev = (Inr (nls_prev, sta_prev), w1_prev)
           \<and> aggregation_step aggregate sta_prev (int (r - 1)) w1_prev = (Inr s_prev, w2_prev)
           \<and> tuples (train_data_nodes w ! i) = tuples (train_data_nodes w_prev ! i) @ [t_prev]
           \<and> nls_prev ! i = LocalStateRef (composite_traintuple_id t_prev)
           \<and> in_head_model_id t = Some (local_key (nls_prev ! i))
           \<and> in_trunk_model_id t = Some (shared_key s_prev)
           \<and> (\<forall>j < length (train_data_nodes w0).
                 j \<noteq> i \<longrightarrow> in_head_model_id t \<noteq> Some (local_key (nls_prev ! j)))))"
proof -
  have n: "length (train_data_nodes w) = length (train_data_nodes w0)"
    by (rule perform_rounds_length [OF assms(3)])
  with assms(5) have i: "i < length (train_data_nodes w)" by simp
  from perform_round_step [OF assms(4) i] obtain nls sta w1 s w2 t where
    step: "train_step algo (int r) w = (Inr (nls, sta), w1)"
      "aggregation_step aggregate sta (int r) w1 = (Inr s, w2)"
      "local_states (strategy w') = Some nls" "avg_shared_state (strategy w') = Some s"
      "length nls = length (train_data_nodes w)"
      "tuples (train_data_nodes w' ! i) = tuples (train_data_nodes w ! i) @ [t]"
      "nls ! i = LocalStateRef (composite_traintuple_id t)"
      "sta ! i = SharedStateRef (composite_traintuple_id t)"
      "in_head_model_id t = map_option (\<lambda>ls. local_key (ls ! i)) (local_states (strategy w))"
      "in_trunk_model_id t = map_option shared_key (avg_shared_state (strategy w))"
    by blast
  have zero: "r = 0 \<longrightarrow> in_head_model_id t = None \<and> in_trunk_model_id t = None"
  proof
    assume "r = 0"
    with assms(3) have "w = w0" by simp
    with assms(1,2) step(9,10) show "in_head_model_id t = None \<and> in_trunk_model_id t = None"
      by simp
  qed
  have pos: "0 < r \<longrightarrow>
         (\<exists>w_prev t_prev nls_prev sta_prev w1_prev s_prev w2_prev.
             perform_rounds aggregate algo (r - 1) w0 = (Inr (), w_prev)
           \<and> train_step algo (int (r - 1)) w_prev = (Inr (nls_prev, sta_prev), w1_prev)
           \<and> aggregation_step aggregate sta_prev (int (r - 1)) w1_prev = (Inr s_prev, w2_prev)
           \<and> tuples (train_data_nodes w ! i) = tuples (train_data_nodes w_prev ! i) @ [t_prev]
           \<and> nls_prev ! i = LocalStateRef (composite_traintuple_id t_prev)
           \<and> in_head_model_id t = Some (local_key (nls_prev ! i))
           \<and> in_trunk_model_id t = Some (shared_key s_prev)
           \<and> (\<forall>j < length (train_data_nodes w0).
                 j \<noteq> i \<longrightarrow> in_head_model_id t \<noteq> Some (local_key (nls_prev ! j))))"
  proof
    assume "0 < r"
    then obtain q where r: "r = Suc q" by (cases r) auto
    then have rq: "r - 1 = q" by simp
    from perform_rounds_Suc_Inr [OF assms(3) [unfolded r]] obtain w_prev where
      p: "perform_rounds aggregate algo q w0 = (Inr (), w_prev)"
      and q: "perform_round aggregate algo (int q) w_prev = (Inr (), w)"
      by blast
    have np: "length (train_data_nodes w_prev) = length (train_data_nodes w0)"
      by (rule perform_rounds_length [OF p])
    with assms(5) have ip: "i < length (train_data_nodes w_prev)" by simp
    from perform_round_step [OF q ip] obtain nls_prev sta_prev w1_prev s_prev w2_prev t_prev
      where prev: "train_step algo (int q) w_prev = (Inr (nls_prev, sta_prev), w1_prev)"
        "aggregation_step aggregate sta_prev (int q) w1_prev = (Inr s_prev, w2_prev)"
        "local_states (strategy w) = Some nls_prev" "avg_shared_state (strategy w) = Some s_prev"
        "tuples (train_data_nodes w ! i) = tuples (train_data_nodes w_prev ! i) @ [t_prev]"
        "nls_prev ! i = LocalStateRef (composite_traintuple_id t_prev)"
        "\<forall>j < length (train_data_nodes w_prev). nls_prev ! j = LocalStateRef (uuid_state w_prev + j)"
      by blast
    have head: "in_head_model_id t = Some (local_key (nls_prev ! i))"
      using step(9) prev(3) by simp
    have trunk: "in_trunk_model_id t = Some (shared_key s_prev)"
      using step(10) prev(4) by simp
    have other: "\<forall>j < length (train_data_nodes w0).
        j \<noteq> i \<longrightarrow> in_head_model_id t \<noteq> Some (local_key (nls_prev ! j))"
      using head prev(7) np ip by simp
    from p prev(1,2,5,6) head trunk other
    show "\<exists>w_prev t_prev nls_prev sta_prev w1_prev s_prev w2_prev.
             perform_rounds aggregate algo (r - 1) w0 = (Inr (), w_prev)
           \<and> train_step algo (int (r - 1)) w_prev = (Inr (nls_prev, sta_prev), w1_prev)
           \<and> aggregation_step aggregate sta_prev (int (r - 1)) w1_prev = (Inr s_prev, w2_prev)
           \<and> tuples (train_data_nodes w ! i) = tuples (train_data_nodes w_prev ! i) @ [t_prev]
           \<and> nls_prev ! i = LocalStateRef (composite_traintuple_id t_prev)
           \<and> in_head_model_id t = Some (local_key (nls_prev ! i))
           \<and> in_trunk_model_id t = Some (shared_key s_prev)
           \<and> (\<forall>j < length (train_data_nodes w0).
                 j \<noteq> i \<longrightarrow> in_head_model_id t \<noteq> Some (local_key (nls_prev ! j)))"
      unfolding rq by blast
  qed
  from step(1,2,6) step(5) [unfolded n] step(7,8,3,4) zero pos show ?thesis by blast
qed


theorem perform_round_threads_references_witness:
  "\<exists>t. tuples (train_data_nodes
            (snd (perform_round aggregation_update_states ''algo'' 1
              (snd (perform_rounds aggregation_update_states ''algo'' 1 example_world)))) ! 0)
        = tuples (train_data_nodes
            (snd (perform_rounds aggregation_update_states ''algo'' 1 example_world)) ! 0) @ [t]
      \<and> in_head_model_id t = Some 0 \<and> in_trunk_model_id t = Some 2
      \<and> composite_traintuple_id t = 3"
proof -
  let ?w1 = "snd (perform_rounds aggregation_update_states ''algo'' 1 example_world)"
  let ?w2 = "snd (perform_round aggregation_update_states ''algo'' 1 ?w1)"
  have h1: "local_states (strategy example_world) = None"
    and h2: "avg_shared_state (strategy example_world) = None"
    and h5: "0 < length (train_data_nodes example_world)"
    by (simp_all add: example_world_def)
  have h3: "perform_rounds aggregation_update_states ''algo'' 1 example_world = (Inr (), ?w1)"
    by (simp add: eval_defs)
  have h4: "perform_round aggregation_update_states ''algo'' (int 1) ?w1 = (Inr (), ?w2)"
    by (simp add: eval_defs)
  from perform_round_threads_references [OF h1 h2 h3 h4 h5] obtain t where
    t: "tuples (train_data_nodes ?w2 ! 0) = tuples (train_data_nodes ?w1 ! 0) @ [t]"
    by blast
  have "tuples (train_data_nodes ?w2 ! 0) = tuples (train_data_nodes ?w1 ! 0) @
      [\<lparr>algo_key = ''algo'', tuple_data_manager_key = ''dm0'',
        train_data_sample_keys = [''s0''], in_head_model_id = Some 0,
        in_trunk_model_id = Some 2, tag = ''train'', composite_traintuple_id = 3\<rparr>]"
    by (simp add: eval_defs)
  with t have "t = \<lparr>algo_key = ''algo'', tuple_data_manager_key = ''dm0'',
        train_data_sample_keys = [''s0''], in_head_model_id = Some 0,
        in_trunk_model_id = Some 2, tag = ''train'', composite_traintuple_id = 3\<rparr>"
    by simp
  with t show ?thesis by (intro exI [of _ t]) simp
qed

text \<open>
  C2. If step 1 of \<^verbatim>\<open>perform_round\<close> has run and the aggregation operation of step 2
  raises, \<^verbatim>\<open>perform_round\<close> raises the same error and neither assignment is made: the
  stored list of local states and the stored shared-state reference are what they were
  before the call. (The participant nodes keep the records step 1 appended.)
\<close>

theorem perform_round_aggregation_error:
  assumes "train_step algo round_idx w = (Inr (nls, sta), w1)"
    and "aggregation_step aggregate sta round_idx w1 = (Inl e, w2)"
  shows "perform_round aggregate algo round_idx w = (Inl e, w2)
     \<and> local_states (strategy w2) = local_states (strategy w)
     \<and> avg_shared_state (strategy w2) = avg_shared_state (strategy w)
     \<and> strategy w2 = strategy w"
proof -
  have "strategy w1 = strategy w"
    using train_step_Inr(1) [OF assms(1)] by (metis world.select_convs(1) world.surjective world.update_convs(2) world.update_convs(5))
  moreover have "strategy w2 = strategy w1"
    using aggregation_step_frame [OF assms(2)] by simp
  moreover have "perform_round aggregate algo round_idx w = (Inl e, w2)"
    using assms by (simp add: perform_round_def)
  ultimately show ?thesis by simp
qed

theorem perform_round_aggregation_error_witness:
  "fst (perform_round (\<lambda>node shared_states round_idx ids. (Inl BackendError, node, ids))
          ''algo'' 0 example_world) = Inl BackendError
   \<and> strategy (snd (perform_round (\<lambda>node shared_states round_idx ids. (Inl BackendError, node, ids))
          ''algo'' 0 example_world))
       = \<lparr>aggregation_lr = 1, local_states = None, avg_shared_state = None\<rparr>
   \<and> map (\<lambda>node. length (tuples node))
       (train_data_nodes (snd (perform_round
          (\<lambda>node shared_states round_idx ids. (Inl BackendError, node, ids))
          ''algo'' 0 example_world))) = [1, 1]"
proof -
  let ?reject = "\<lambda>(node :: aggregation_node) (shared_states :: shared_state_ref list)
                   (round_idx :: int) (ids :: nat). (Inl BackendError :: error + shared_state_ref, node, ids)"
  obtain nls sta w1 where ts: "train_step ''algo'' 0 example_world = (Inr (nls, sta), w1)"
    using train_step_total [of example_world "''algo''" 0] by (auto simp: example_world_def)
  obtain w2 where ag: "aggregation_step ?reject sta 0 w1 = (Inl BackendError, w2)"
    by (simp add: aggregation_step_def)
  have nodes: "train_data_nodes w2 = train_data_nodes w1"
    using aggregation_step_frame [OF ag] by simp
  have "map (\<lambda>node. length (tuples node)) (train_data_nodes w1) = [1, 1]"
    using ts by (auto simp: eval_defs)
  with perform_round_aggregation_error [OF ts ag] nodes show ?thesis
    by (simp add: example_world_def)
qed

text \<open>
  C3 (as the code has it). \<^verbatim>\<open>perform_round\<close> keeps no trace of the rounds it has
  performed. Whenever the stored list of local states is absent or covers the participant
  nodes, the call succeeds, with whatever round index, and appends exactly one new record,
  under a fresh id, to the log of every participant node and one to the log of the
  aggregator node of spec 4.3; the state it leaves satisfies the same condition, so that a
  repeated call appends again.
\<close>

theorem perform_round_appends_every_time:
  assumes "case local_states (strategy w) of None \<Rightarrow> True
           | Some ls \<Rightarrow> length (train_data_nodes w) \<le> length ls"
  shows "\<exists>w'. perform_round aggregation_update_states algo round_idx w = (Inr (), w')
     \<and> length (train_data_nodes w') = length (train_data_nodes w)
     \<and> (\<forall>i < length (train_data_nodes w).
           \<exists>t. tuples (train_data_nodes w' ! i) = tuples (train_data_nodes w ! i) @ [t]
              \<and> composite_traintuple_id t = uuid_state w + i)
     \<and> (\<exists>a. aggregate_tuples (aggregation_node w')
               = aggregate_tuples (aggregation_node w) @ [a]
            \<and> aggregatetuple_id a = uuid_state w + length (train_data_nodes w))
     \<and> (case local_states (strategy w') of None \<Rightarrow> False
         | Some ls \<Rightarrow> length ls = length (train_data_nodes w'))"
proof -
  from train_step_total [OF assms, of algo round_idx] obtain nls sta w1 where
    ts: "train_step algo round_idx w = (Inr (nls, sta), w1)" by blast
  note f = train_step_Inr [OF ts]
  let ?a = "\<lparr>in_models_ids = map shared_key sta, aggregate_tag = ''aggregate'',
             aggregatetuple_id = uuid_state w1\<rparr>"
  let ?w2 = "w1\<lparr>aggregation_node := (aggregation_node w1)
                 \<lparr>aggregate_tuples := aggregate_tuples (aggregation_node w1) @ [?a]\<rparr>,
               uuid_state := Suc (uuid_state w1)\<rparr>"
  let ?w' = "?w2\<lparr>strategy := (strategy ?w2)
                 \<lparr>local_states := Some nls,
                  avg_shared_state := Some (SharedStateRef (uuid_state w1))\<rparr>\<rparr>"
  have ag: "aggregation_step aggregation_update_states sta round_idx w1
      = (Inr (SharedStateRef (uuid_state w1)), ?w2)"
    by (simp add: aggregation_step_def aggregation_update_states_def uuid4_def)
  have run: "perform_round aggregation_update_states algo round_idx w = (Inr (), ?w')"
    using ts ag by (simp add: perform_round_def)
  have w1_agg: "aggregation_node w1 = aggregation_node w"
    and w1_ids: "uuid_state w1 = uuid_state w + length (train_data_nodes w)"
    by (subst f(1), simp)+
  have 1: "length (train_data_nodes ?w') = length (train_data_nodes w)"
    using f(4) by simp
  have 2: "\<forall>i < length (train_data_nodes w).
           \<exists>t. tuples (train_data_nodes ?w' ! i) = tuples (train_data_nodes w ! i) @ [t]
              \<and> composite_traintuple_id t = uuid_state w + i"
    using f(5) by simp
  have 3: "\<exists>a. aggregate_tuples (aggregation_node ?w')
               = aggregate_tuples (aggregation_node w) @ [a]
            \<and> aggregatetuple_id a = uuid_state w + length (train_data_nodes w)"
    using w1_agg w1_ids by simp
  have 4: "case local_states (strategy ?w') of None \<Rightarrow> False
         | Some ls \<Rightarrow> length ls = length (train_data_nodes ?w')"
    using f(2,4) by simp
  from run 1 2 3 4 show ?thesis by blast
qed

theorem perform_round_appends_every_time_witness:
  "\<exists>w'. perform_round aggregation_update_states ''algo'' 0
           (snd (perform_round aggregation_update_states ''algo'' 0 example_world)) = (Inr (), w')
     \<and> map (\<lambda>node. length (tuples node)) (train_data_nodes w') = [2, 2]"
proof -
  let ?w = "snd (perform_round aggregation_update_states ''algo'' 0 example_world)"
  have h: "case local_states (strategy ?w) of None \<Rightarrow> True
           | Some ls \<Rightarrow> length (train_data_nodes ?w) \<le> length ls"
    by (simp add: eval_defs)
  from perform_round_appends_every_time [OF h, of "''algo''" 0] obtain w' where
    run: "perform_round aggregation_update_states ''algo'' 0 ?w = (Inr (), w')"
    by blast
  have "map (\<lambda>node. length (tuples node))
      (train_data_nodes (snd (perform_round aggregation_update_states ''algo'' 0 ?w))) = [2, 2]"
    by (simp add: eval_defs)
  with run show ?thesis by simp
qed

text \<open>
  The claim that a repeated call for the same round appends nothing is false on the code:
  after two calls for round 0 every participant log holds two records, and so does the
  aggregator log.
\<close>

theorem perform_round_repeat_counterexample:
  "map (\<lambda>node. length (tuples node))
     (train_data_nodes (snd (perform_round aggregation_update_states ''algo'' 0 example_world)))
     = [1, 1]
   \<and> length (aggregate_tuples (aggregation_node
        (snd (perform_round aggregation_update_states ''algo'' 0 example_world)))) = 1
   \<and> map (\<lambda>node. length (tuples node))
     (train_data_nodes (snd (perform_round aggregation_update_states ''algo'' 0
        (snd (perform_round aggregation_update_states ''algo'' 0 example_world)))))
     = [2, 2]
   \<and> length (aggregate_tuples (aggregation_node
        (snd (perform_round aggregation_update_states ''algo'' 0
          (snd (perform_round aggregation_update_states ''algo'' 0 example_world)))))) = 2"
  by (simp add: eval_defs)

section \<open>Results on predict\<close>

lemma index_position:
  "p < length xs \<Longrightarrow> \<exists>i. index eq xs p x = Inr i \<and> i \<le> p"
proof (induction xs arbitrary: p)
  case Nil
  then show ?case by simp
next
  case (Cons y ys)
  show ?case
  proof (cases "p = 0 \<or> eq y x")
    case True
    then show ?thesis by auto
  next
    case False
    then have "p - 1 < length ys" using Cons.prems by (cases p) auto
    from Cons.IH [OF this] obtain i where "index eq ys (p - 1) x = Inr i" "i \<le> p - 1"
      by blast
    with False show ?thesis by (cases p) auto
  qed
qed

lemma matching_hd:
  assumes "filter (\<lambda>(p, n). node_id n = k) (zip [0..<length ns] ns) = (p, x) # ms"
  shows "p < length ns \<and> ns ! p = x \<and> node_id x = k"
proof -
  have "(p, x) \<in> set (filter (\<lambda>(p, n). node_id n = k) (zip [0..<length ns] ns))"
    unfolding assms by simp
  then have "(p, x) \<in> set (zip [0..<length ns] ns)" "node_id x = k" by simp_all
  then show ?thesis by (auto simp: in_set_zip)
qed

lemma matching_empty:
  "filter (\<lambda>(p, n). node_id n = k) (zip [0..<length ns] ns) = []
     \<longleftrightarrow> (\<forall>n \<in> set ns. node_id n \<noteq> k)"
proof
  assume a: "filter (\<lambda>(p, n). node_id n = k) (zip [0..<length ns] ns) = []"
  show "\<forall>n \<in> set ns. node_id n \<noteq> k"
  proof
    fix n assume "n \<in> set ns"
    then obtain i where i: "i < length ns" "ns ! i = n" by (auto simp: in_set_conv_nth)
    then have "(i, n) \<in> set (zip [0..<length ns] ns)"
      by (auto simp: in_set_zip intro!: exI [of _ i])
    with a show "node_id n \<noteq> k" by (auto simp: filter_empty_conv)
  qed
next
  assume "\<forall>n \<in> set ns. node_id n \<noteq> k"
  then show "filter (\<lambda>(p, n). node_id n = k) (zip [0..<length ns] ns) = []"
    by (auto simp: filter_empty_conv dest: set_zip_rightD)
qed

lemma predict_loop_no_state:
  assumes "local_states self = None"
  shows "predict_loop node_eq self algo round_idx (t # rest) train_nodes ids =
     (Inl (if \<exists>n \<in> set train_nodes. node_id n = test_node_id t
           then AssertionError else NotImplementedError),
      t # rest, train_nodes, ids)"
proof (cases "filter (\<lambda>(p, train_node). node_id train_node = test_node_id t)
    (zip [0..<length train_nodes] train_nodes)")
  case Nil
  then have "\<not> (\<exists>n \<in> set train_nodes. node_id n = test_node_id t)"
    using matching_empty [of "test_node_id t" train_nodes] by blast
  with Nil show ?thesis by simp
next
  case (Cons m ms)
  obtain p train_node where m: "m = (p, train_node)" by (cases m)
  from matching_hd [OF Cons [unfolded m]] have h: "p < length train_nodes"
    "train_nodes ! p = train_node" "node_id train_node = test_node_id t" by simp_all
  from index_position [OF h(1), of node_eq train_node] obtain i where
    "index node_eq train_nodes p train_node = Inr i" by blast
  moreover have "\<exists>n \<in> set train_nodes. node_id n = test_node_id t"
    using h by (metis nth_mem)
  ultimately show ?thesis using Cons m assms by simp
qed

lemma predict_loop_unmatched:
  assumes "\<forall>n \<in> set train_nodes. node_id n \<noteq> test_node_id t"
  shows "predict_loop node_eq self algo round_idx (t # rest) train_nodes ids =
     (Inl NotImplementedError, t # rest, train_nodes, ids)"
proof -
  have "filter (\<lambda>(p, train_node). node_id train_node = test_node_id t)
      (zip [0..<length train_nodes] train_nodes) = []"
    using assms matching_empty [of "test_node_id t" train_nodes] by blast
  then show ?thesis by simp
qed

lemma update_states_node_id:
  "update_states node operation prev round_idx ids = (refs, node', ids') \<Longrightarrow>
   node_id node' = node_id node"
  by (auto simp: update_states_def compute_def uuid4_def)

lemma predict_loop_node_ids:
  "predict_loop node_eq self algo round_idx tests train_nodes ids
     = (r, tests', train_nodes', ids') \<Longrightarrow>
   map node_id train_nodes' = map node_id train_nodes"
proof (induction tests arbitrary: train_nodes ids r tests' train_nodes' ids')
  case Nil
  then show ?case by simp
next
  case (Cons t rest)
  show ?case
  proof (cases "filter (\<lambda>(p, train_node). node_id train_node = test_node_id t)
      (zip [0..<length train_nodes] train_nodes)")
    case Nil
    with Cons.prems show ?thesis by simp
  next
    case match0: (Cons m ms)
    obtain p train_node where m: "m = (p, train_node)" by (cases m)
    note match = match0 [unfolded m]
    from matching_hd [OF match] have h: "p < length train_nodes"
      "train_nodes ! p = train_node" by simp_all
    from index_position [OF h(1), of node_eq train_node] obtain i where
      i: "index node_eq train_nodes p train_node = Inr i" by blast
    show ?thesis
    proof (cases "local_states self")
      case None
      with Cons.prems match i show ?thesis by simp
    next
      case (Some ls)
      show ?thesis
      proof (cases "i < length ls")
        case False
        with Cons.prems match i Some show ?thesis by simp
      next
        case True
        show ?thesis
        proof (cases "data_sample_keys train_node")
          case Nil
          with Cons.prems match i Some True show ?thesis by simp
        next
          case keys: (Cons key keys)
          obtain refs train_node' idsa where
            u: "update_states train_node (algo_predict algo [key] (avg_shared_state self) True)
                  (Some (ls ! i)) round_idx ids = (refs, train_node', idsa)"
            by (metis prod_cases3)
          obtain r0 rest0 tn0 ids0 where
            rec: "predict_loop node_eq self algo round_idx rest (train_nodes[p := train_node'])
                    idsa = (r0, rest0, tn0, ids0)"
            by (metis prod_cases4)
          have "train_nodes' = tn0"
            using Cons.prems match i Some True keys u rec
            by (auto split: prod.splits)
          moreover have "map node_id tn0 = map node_id (train_nodes[p := train_node'])"
            by (rule Cons.IH [OF rec])
          moreover have "map node_id (train_nodes[p := train_node']) = map node_id train_nodes"
            using update_states_node_id [OF u] h
            by (simp add: map_update list_update_same_conv)
          ultimately show ?thesis by simp
        qed
      qed
    qed
  qed
qed

lemma predict_loop_append:
  "predict_loop node_eq self algo round_idx pre train_nodes ids
     = (Inr (), pre', train_nodes', ids') \<Longrightarrow>
   predict_loop node_eq self algo round_idx (pre @ later) train_nodes ids =
     (case predict_loop node_eq self algo round_idx later train_nodes' ids' of
        (r, later', train_nodes'', ids'') \<Rightarrow> (r, pre' @ later', train_nodes'', ids''))"
proof (induction pre arbitrary: train_nodes ids pre' train_nodes' ids')
  case Nil
  then show ?case by (auto split: prod.splits)
next
  case (Cons t rest)
  from Cons.prems show ?case
    by (auto split: list.splits sum.splits option.splits if_splits prod.splits
        dest!: Cons.IH)
qed

lemma update_states_unfold:
  "update_states node operation prev round_idx ids =
     ((LocalStateRef ids, SharedStateRef ids),
      node\<lparr>tuples := tuples node @
        [\<lparr>algo_key = op_algo_key operation, tuple_data_manager_key = data_manager_key node,
          train_data_sample_keys = op_data_samples operation,
          in_head_model_id = map_option local_key prev,
          in_trunk_model_id = map_option shared_key (op_shared_state operation),
          tag = ''train'', composite_traintuple_id = ids\<rparr>]\<rparr>,
      Suc ids)"
  by (simp add: update_states_def compute_def uuid4_def)

lemmas predict_eval_defs = predict_def update_states_unfold algo_predict_def
  test_update_states_def

text \<open>
  With a comparison that holds of every two nodes (no declared field), the position
  \<^verbatim>\<open>index\<close> returns is 0 whatever the matched node: after round 0, the forward operation
  for an evaluation node on the second participant is recorded on the second participant
  and takes the key stored for the first one as its local-state input.
\<close>

lemma predict_index_without_fields:
  "map in_head_model_id (tuples (train_data_nodes (snd (predict (\<lambda>a b. True) ''algo'' 1
      ((snd (perform_round aggregation_update_states ''algo'' 0 example_world))
         \<lparr>test_data_nodes :=
            [\<lparr>test_node_id = ''1'', test_data_manager_key = ''dm1'',
              test_data_sample_keys = [''t1''], objective_key = ''acc'',
              test_tuples = []\<rparr>]\<rparr>))) ! 1)) = [None, Some 0]"
  by (simp add: eval_defs predict_eval_defs)

text \<open>
  C7 (as the code has it). \<^verbatim>\<open>predict\<close> takes the evaluation nodes in order and, for
  each, first looks for the participant node of the same identity and only then reads the
  stored local state. Whatever the comparison of participant nodes is: before any round
  (no stored local states), on a non-empty list, it fails at the first evaluation node,
  with \<open>NotImplementedError\<close> when that node matches no participant node, with
  \<open>AssertionError\<close> when it matches one; nothing at all is recorded. And whenever the
  evaluation nodes before an evaluation node that matches no participant node have been
  processed without error, \<^verbatim>\<open>predict\<close> fails with \<open>NotImplementedError\<close> at that node:
  the nodes before it keep their records, the offending node and the nodes after it are
  left as they were.
\<close>

theorem predict_failures:
  "(local_states (strategy w) = None \<and> test_data_nodes w = t # rest \<longrightarrow>
      predict node_eq algo round_idx w =
        (Inl (if \<exists>n \<in> set (train_data_nodes w). node_id n = test_node_id t
              then AssertionError else NotImplementedError), w))
   \<and> (test_data_nodes w = pre @ t # rest
        \<and> (\<forall>n \<in> set (train_data_nodes w). node_id n \<noteq> test_node_id t)
        \<and> predict node_eq algo round_idx (w\<lparr>test_data_nodes := pre\<rparr>) = (Inr (), w') \<longrightarrow>
      predict node_eq algo round_idx w =
        (Inl NotImplementedError, w'\<lparr>test_data_nodes := test_data_nodes w' @ t # rest\<rparr>))"
proof (intro conjI impI)
  assume a: "local_states (strategy w) = None \<and> test_data_nodes w = t # rest"
  then have "predict_loop node_eq (strategy w) algo round_idx (test_data_nodes w)
      (train_data_nodes w) (uuid_state w) =
     (Inl (if \<exists>n \<in> set (train_data_nodes w). node_id n = test_node_id t
           then AssertionError else NotImplementedError),
      test_data_nodes w, train_data_nodes w, uuid_state w)"
    using predict_loop_no_state [of "strategy w" node_eq algo round_idx t rest
        "train_data_nodes w" "uuid_state w"]
    by simp
  then show "predict node_eq algo round_idx w =
        (Inl (if \<exists>n \<in> set (train_data_nodes w). node_id n = test_node_id t
              then AssertionError else NotImplementedError), w)"
    by (simp add: predict_def)
next
  assume a: "test_data_nodes w = pre @ t # rest
        \<and> (\<forall>n \<in> set (train_data_nodes w). node_id n \<noteq> test_node_id t)
        \<and> predict node_eq algo round_idx (w\<lparr>test_data_nodes := pre\<rparr>) = (Inr (), w')"
  obtain r0 pre' tn' ids' where
    loop: "predict_loop node_eq (strategy w) algo round_idx pre (train_data_nodes w)
             (uuid_state w) = (r0, pre', tn', ids')"
    by (metis prod_cases4)
  with a have r0: "r0 = Inr ()"
    and w': "w' = w\<lparr>train_data_nodes := tn', test_data_nodes := pre', uuid_state := ids'\<rparr>"
    by (auto simp: predict_def)
  have eq: "map node_id tn' = map node_id (train_data_nodes w)"
    by (rule predict_loop_node_ids [OF loop])
  then have img: "node_id ` set tn' = node_id ` set (train_data_nodes w)"
    by (metis set_map)
  have un: "\<forall>n \<in> set tn'. node_id n \<noteq> test_node_id t"
  proof
    fix n assume "n \<in> set tn'"
    then have "node_id n \<in> node_id ` set (train_data_nodes w)"
      using img by blast
    then obtain m where "m \<in> set (train_data_nodes w)" "node_id m = node_id n" by auto
    with a show "node_id n \<noteq> test_node_id t" by metis
  qed
  have "predict_loop node_eq (strategy w) algo round_idx (pre @ t # rest) (train_data_nodes w)
           (uuid_state w)
        = (Inl NotImplementedError, pre' @ t # rest, tn', ids')"
    using predict_loop_append [OF loop [unfolded r0], of "t # rest"]
      predict_loop_unmatched [OF un, of node_eq "strategy w" algo round_idx rest ids']
    by simp
  with a w' show "predict node_eq algo round_idx w =
        (Inl NotImplementedError, w'\<lparr>test_data_nodes := test_data_nodes w' @ t # rest\<rparr>)"
    by (simp add: predict_def)
qed


theorem predict_failures_witness:
  "predict (\<lambda>a b. True) ''algo'' 0 example_world = (Inl AssertionError, example_world)
   \<and> fst (predict (\<lambda>a b. True) ''algo'' 1
        ((snd (perform_round aggregation_update_states ''algo'' 0 example_world))
           \<lparr>test_data_nodes := test_data_nodes example_world @
              [\<lparr>test_node_id = ''7'', test_data_manager_key = ''dm7'',
                test_data_sample_keys = [''t7''], objective_key = ''acc'',
                test_tuples = []\<rparr>]\<rparr>)) = Inl NotImplementedError
   \<and> map (\<lambda>node. length (test_tuples node))
       (test_data_nodes (snd (predict (\<lambda>a b. True) ''algo'' 1
        ((snd (perform_round aggregation_update_states ''algo'' 0 example_world))
           \<lparr>test_data_nodes := test_data_nodes example_world @
              [\<lparr>test_node_id = ''7'', test_data_manager_key = ''dm7'',
                test_data_sample_keys = [''t7''], objective_key = ''acc'',
                test_tuples = []\<rparr>]\<rparr>)))) = [1, 0]"
proof -
  let ?eq = "\<lambda>(a :: train_data_node) (b :: train_data_node). True"
  let ?t7 = "\<lparr>test_node_id = ''7'', test_data_manager_key = ''dm7'',
                test_data_sample_keys = [''t7''], objective_key = ''acc'',
                test_tuples = []\<rparr>"
  let ?w1 = "snd (perform_round aggregation_update_states ''algo'' 0 example_world)"
  let ?w = "?w1\<lparr>test_data_nodes := test_data_nodes example_world @ [?t7]\<rparr>"
  let ?pre = "test_data_nodes example_world"
  let ?w' = "snd (predict ?eq ''algo'' 1 (?w\<lparr>test_data_nodes := ?pre\<rparr>))"
  have a: "local_states (strategy example_world) = None
      \<and> test_data_nodes example_world = hd (test_data_nodes example_world) # []"
    by (simp add: example_world_def)
  have first: "predict ?eq ''algo'' 0 example_world = (Inl AssertionError, example_world)"
    using predict_failures [where w = example_world
        and t = "hd (test_data_nodes example_world)" and rest = "[]"
        and node_eq = ?eq and algo = "''algo''" and round_idx = 0] a
    by (simp add: example_world_def)
  have b: "test_data_nodes ?w = ?pre @ ?t7 # []" by simp
  have c: "\<forall>n \<in> set (train_data_nodes ?w). node_id n \<noteq> test_node_id ?t7"
    by (simp add: eval_defs)
  have d: "predict ?eq ''algo'' 1 (?w\<lparr>test_data_nodes := ?pre\<rparr>) = (Inr (), ?w')"
    by (simp add: eval_defs predict_eval_defs)
  have e: "map (\<lambda>node. length (test_tuples node)) (test_data_nodes ?w') = [1]"
    by (simp add: eval_defs predict_eval_defs)
  from predict_failures [where w = ?w and node_eq = ?eq and algo = "''algo''"
      and round_idx = 1 and pre = ?pre and t = ?t7 and rest = "[]" and w' = ?w'] b c d
  have "predict ?eq ''algo'' 1 ?w =
      (Inl NotImplementedError, ?w'\<lparr>test_data_nodes := test_data_nodes ?w' @ ?t7 # []\<rparr>)"
    by blast
  with e first show ?thesis by simp
qed

text \<open>
  The claim gives the kind of failure by the situation alone, and the two situations
  overlap. Before any round, an evaluation node that matches no participant node makes
  \<^verbatim>\<open>predict\<close> fail with \<open>NotImplementedError\<close>, not with the precondition violation; and
  before any round an unmatched evaluation node behind a matched one is never reached:
  the failure is the \<open>AssertionError\<close> of the first node.
\<close>

theorem predict_error_kind_counterexample:
  "local_states (strategy example_world) = None
   \<and> fst (predict (\<lambda>a b. True) ''algo'' 0
        (example_world\<lparr>test_data_nodes :=
           [\<lparr>test_node_id = ''7'', test_data_manager_key = ''dm7'',
             test_data_sample_keys = [''t7''], objective_key = ''acc'',
             test_tuples = []\<rparr>]\<rparr>)) = Inl NotImplementedError
   \<and> fst (predict (\<lambda>a b. True) ''algo'' 0
        (example_world\<lparr>test_data_nodes := test_data_nodes example_world @
           [\<lparr>test_node_id = ''7'', test_data_manager_key = ''dm7'',
             test_data_sample_keys = [''t7''], objective_key = ''acc'',
             test_tuples = []\<rparr>]\<rparr>)) = Inl AssertionError"
  by (simp add: example_world_def predict_eval_defs)

end
